theory Spec2Isabelle
  imports Complex_Main
begin

section \<open>Strings\<close>

text \<open>
  Python strings are modelled as \<open>string\<close> (lists of 8-bit characters) holding ASCII
  code points.  \<open>str.strip\<close> removes the characters for which \<open>str.isspace\<close> holds;
  below 128 these are space, the controls 0x09 to 0x0D and 0x1C to 0x1F.
\<close>

definition whitespace_chars :: "char list" where
  "whitespace_chars = [CHR '' '', CHR 0x09, CHR 0x0A, CHR 0x0B, CHR 0x0C, CHR 0x0D,
                       CHR 0x1C, CHR 0x1D, CHR 0x1E, CHR 0x1F]"

definition is_space :: "char \<Rightarrow> bool" where
  "is_space c = (c \<in> set whitespace_chars)"

definition strip :: "string \<Rightarrow> string" where
  "strip s = rev (dropWhile is_space (rev (dropWhile is_space s)))"

definition lower_char :: "char \<Rightarrow> char" where
  "lower_char c =
     (case map_of (zip ''ABCDEFGHIJKLMNOPQRSTUVWXYZ'' ''abcdefghijklmnopqrstuvwxyz'') c of
        Some d \<Rightarrow> d | None \<Rightarrow> c)"

definition upper_char :: "char \<Rightarrow> char" where
  "upper_char c =
     (case map_of (zip ''abcdefghijklmnopqrstuvwxyz'' ''ABCDEFGHIJKLMNOPQRSTUVWXYZ'') c of
        Some d \<Rightarrow> d | None \<Rightarrow> c)"

definition lower :: "string \<Rightarrow> string" where
  "lower s = map lower_char s"

definition upper :: "string \<Rightarrow> string" where
  "upper s = map upper_char s"

fun startswith :: "string \<Rightarrow> string \<Rightarrow> bool" where
  "startswith s [] = True"
| "startswith [] (p # ps) = False"
| "startswith (c # cs) (p # ps) = (c = p \<and> startswith cs ps)"

definition endswith :: "string \<Rightarrow> string \<Rightarrow> bool" where
  "endswith s suffix = startswith (rev s) (rev suffix)"

text \<open>\<open>s.find(sub)\<close>: the index of the first occurrence, or \<open>-1\<close>.\<close>

fun find_from :: "string \<Rightarrow> string \<Rightarrow> nat \<Rightarrow> int" where
  "find_from [] sub i = (if sub = [] then int i else - 1)"
| "find_from (c # cs) sub i =
     (if startswith (c # cs) sub then int i else find_from cs sub (Suc i))"

definition py_find :: "string \<Rightarrow> string \<Rightarrow> int" where
  "py_find s sub = find_from s sub 0"

text \<open>\<open>sub in s\<close>.\<close>

definition contains :: "string \<Rightarrow> string \<Rightarrow> bool" where
  "contains s sub = (py_find s sub \<noteq> - 1)"

text \<open>
  Slices \<open>s[a:b]\<close>, \<open>s[a:]\<close> and \<open>s[:b]\<close>: a negative bound counts from the end, and
  every bound is clamped to the length.
\<close>

definition py_index :: "nat \<Rightarrow> int \<Rightarrow> nat" where
  "py_index n i = (if i < 0 then nat (max 0 (int n + i)) else min n (nat i))"

definition py_slice :: "string \<Rightarrow> int \<Rightarrow> int \<Rightarrow> string" where
  "py_slice s a b =
     (let i = py_index (length s) a; j = py_index (length s) b in take (j - i) (drop i s))"

definition py_slice_from :: "string \<Rightarrow> int \<Rightarrow> string" where
  "py_slice_from s a = drop (py_index (length s) a) s"

definition py_slice_to :: "string \<Rightarrow> int \<Rightarrow> string" where
  "py_slice_to s b = take (py_index (length s) b) s"

text \<open>\<open>s.split(sep)\<close> for a one-character separator; the result is never empty.\<close>

fun split_on :: "char \<Rightarrow> string \<Rightarrow> string list" where
  "split_on sep [] = [[]]"
| "split_on sep (c # cs) =
     (if c = sep then [] # split_on sep cs
      else (case split_on sep cs of [] \<Rightarrow> [[c]] | p # ps \<Rightarrow> (c # p) # ps))"

text \<open>The order \<open><\<close> of Python strings: lexicographic on code points.\<close>

fun str_lt :: "string \<Rightarrow> string \<Rightarrow> bool" where
  "str_lt [] [] = False"
| "str_lt [] (y # ys) = True"
| "str_lt (x # xs) [] = False"
| "str_lt (x # xs) (y # ys) = ((of_char x :: nat) < of_char y \<or> (x = y \<and> str_lt xs ys))"

definition str_le :: "string \<Rightarrow> string \<Rightarrow> bool" where
  "str_le a b = (str_lt a b \<or> a = b)"

section \<open>Errors\<close>

datatype error =
    ParseError string
  | ValueError string
  | KeyError string
  | UnboundLocalError string
  | FileNotFoundError string

fun is_parse_error :: "error + 'a \<Rightarrow> bool" where
  "is_parse_error (Inl (ParseError m)) = True"
| "is_parse_error r = False"

fun is_key_error :: "error + 'a \<Rightarrow> bool" where
  "is_key_error (Inl (KeyError m)) = True"
| "is_key_error r = False"

section \<open>Numbers\<close>

text \<open>
  \<open>int(s)\<close> in base 10: surrounding whitespace, an optional sign, then digits, where
  single underscores may stand between two digits.  \<open>None\<close> is the \<open>ValueError\<close>.
\<close>

definition digit_val :: "char \<Rightarrow> nat option" where
  "digit_val c = map_of (zip ''0123456789'' [0, 1, 2, 3, 4, 5, 6, 7, 8, 9]) c"

fun digits_rest :: "string \<Rightarrow> nat \<Rightarrow> nat option" where
  "digits_rest [] acc = Some acc"
| "digits_rest (c # cs) acc =
     (if c = CHR ''_'' then
        (case cs of
           [] \<Rightarrow> None
         | d # ds \<Rightarrow> (case digit_val d of None \<Rightarrow> None
                      | Some v \<Rightarrow> digits_rest ds (acc * 10 + v)))
      else (case digit_val c of None \<Rightarrow> None | Some v \<Rightarrow> digits_rest cs (acc * 10 + v)))"

definition digits_value :: "string \<Rightarrow> nat option" where
  "digits_value s =
     (case s of [] \<Rightarrow> None
      | c # cs \<Rightarrow> (case digit_val c of None \<Rightarrow> None | Some v \<Rightarrow> digits_rest cs v))"

definition py_int :: "string \<Rightarrow> int option" where
  "py_int s =
     (case strip s of
        [] \<Rightarrow> None
      | c # cs \<Rightarrow>
          if c = CHR ''-'' then map_option (\<lambda>n. - int n) (digits_value cs)
          else if c = CHR ''+'' then map_option int (digits_value cs)
          else map_option int (digits_value (c # cs)))"

text \<open>\<open>str(i)\<close> for an integer: its decimal digits, with a minus sign when negative.\<close>

definition digit_char :: "nat \<Rightarrow> char" where
  "digit_char n = ''0123456789'' ! (n mod 10)"

fun str_nat :: "nat \<Rightarrow> string" where
  "str_nat n = (if n < 10 then [digit_char n] else str_nat (n div 10) @ [digit_char n])"

definition str_int :: "int \<Rightarrow> string" where
  "str_int i = (if i < 0 then CHR ''-'' # str_nat (nat (- i)) else str_nat (nat i))"

text \<open>
  A binary floating-point value is a rational, a signed zero, an infinity or a NaN.
  Comparisons of Python numbers (also between \<open>int\<close> and \<open>float\<close>) are exact, so they
  are decided on these values.  The conversions \<open>float(s)\<close> (rounding a decimal text)
  and \<open>str(x)\<close> of a float belong to the interpreter; they are the two fields of a
  \<open>float_lib\<close>, which every function that coerces values takes as its first argument.
\<close>

datatype pyfloat = Finite rat | NegZero | PosInf | NegInf | NaN

record float_lib =
  float_of_str :: "string \<Rightarrow> pyfloat option"
  str_of_float :: "pyfloat \<Rightarrow> string"

text \<open>The library in which \<open>float\<close> rejects every text; for inputs that hold no dot.\<close>

definition no_float :: float_lib where
  "no_float = \<lparr>float_of_str = (\<lambda>s. None), str_of_float = (\<lambda>x. [])\<rparr>"

datatype pyval = PNone | PInt int | PFloat pyfloat | PStr string

datatype xrat = MinusInf | Rat rat | PlusInf

fun xval :: "pyval \<Rightarrow> xrat option" where
  "xval (PInt i) = Some (Rat (of_int i))"
| "xval (PFloat (Finite q)) = Some (Rat q)"
| "xval (PFloat NegZero) = Some (Rat 0)"
| "xval (PFloat PosInf) = Some PlusInf"
| "xval (PFloat NegInf) = Some MinusInf"
| "xval (PFloat NaN) = None"
| "xval PNone = None"
| "xval (PStr s) = None"

fun xlt :: "xrat \<Rightarrow> xrat \<Rightarrow> bool" where
  "xlt MinusInf b = (b \<noteq> MinusInf)"
| "xlt (Rat a) (Rat b) = (a < b)"
| "xlt (Rat a) PlusInf = True"
| "xlt (Rat a) MinusInf = False"
| "xlt PlusInf b = False"

definition num_eq :: "pyval \<Rightarrow> pyval \<Rightarrow> bool" where
  "num_eq l r = (case (xval l, xval r) of (Some a, Some b) \<Rightarrow> a = b | _ \<Rightarrow> False)"

definition num_lt :: "pyval \<Rightarrow> pyval \<Rightarrow> bool" where
  "num_lt l r = (case (xval l, xval r) of (Some a, Some b) \<Rightarrow> xlt a b | _ \<Rightarrow> False)"

definition num_le :: "pyval \<Rightarrow> pyval \<Rightarrow> bool" where
  "num_le l r = (num_lt l r \<or> num_eq l r)"

fun is_number :: "pyval \<Rightarrow> bool" where
  "is_number (PInt i) = True"
| "is_number (PFloat x) = True"
| "is_number v = False"

fun py_str :: "float_lib \<Rightarrow> pyval \<Rightarrow> string" where
  "py_str L PNone = ''None''"
| "py_str L (PInt i) = str_int i"
| "py_str L (PFloat x) = str_of_float L x"
| "py_str L (PStr s) = s"

section \<open>Helpers\<close>

definition try_parse_number :: "float_lib \<Rightarrow> string option \<Rightarrow> pyval" where
  "try_parse_number L s0 =
     (case s0 of
        None \<Rightarrow> PNone
      | Some s1 \<Rightarrow>
          (let s = strip s1 in
           if s = [] then PStr s
           else if CHR ''.'' \<in> set s then
             (case float_of_str L s of Some x \<Rightarrow> PFloat x | None \<Rightarrow> PStr s)
           else (case py_int s of Some i \<Rightarrow> PInt i | None \<Rightarrow> PStr s)))"

definition normalize_colname :: "string \<Rightarrow> string" where
  "normalize_colname c = lower (strip c)"

definition unquote_value :: "string \<Rightarrow> string" where
  "unquote_value token0 =
     (let token = strip token0 in
      if length token \<ge> 2 \<and> hd token = CHR 0x27 \<and> last token = CHR 0x27
      then butlast (tl token) else token)"

section \<open>Parsing\<close>

record condition =
  col :: string
  op :: string
  raw_val :: string

text \<open>An element of a condition list: a condition (a dict) or a connective (a string).\<close>

datatype cond_item = Cond condition | Op string

record parsed_query =
  select_list :: "string list"
  from_table :: string
  where_clause :: "cond_item list option"
  raw_sql :: string

definition parse_select_list :: "string \<Rightarrow> string list" where
  "parse_select_list token0 =
     (let token = strip token0 in
      if token = ''*'' then [''*'']
      else filter (\<lambda>p. p \<noteq> []) (map strip (split_on CHR '','' token)))"

text \<open>
  \<open>shlex.split\<close> of the standard library, as \<open>parse_where_clause\<close> calls it: POSIX
  mode, splitting on whitespace only, no comments.  The scanner is in one of four
  states: between tokens, inside a word, inside a quotation, or after a backslash
  (which remembers the state to return to).  A quotation or a backslash left open at
  the end of the text raises \<open>ValueError\<close>.
\<close>

datatype lex_state = InBlank | InWord | InQuote char | InEscape lex_state

definition shlex_whitespace :: "char list" where
  "shlex_whitespace = [CHR '' '', CHR 0x09, CHR 0x0D, CHR 0x0A]"

definition shlex_quotes :: "char list" where
  "shlex_quotes = [CHR 0x27, CHR 0x22]"

definition emit :: "string \<Rightarrow> error + string list \<Rightarrow> error + string list" where
  "emit tok r = (case r of Inl e \<Rightarrow> Inl e | Inr ts \<Rightarrow> Inr (tok # ts))"

fun read_tokens :: "lex_state \<Rightarrow> bool \<Rightarrow> string \<Rightarrow> string \<Rightarrow> error + string list" where
  "read_tokens (InQuote q) quoted tok [] = Inl (ValueError ''No closing quotation'')"
| "read_tokens (InEscape e) quoted tok [] = Inl (ValueError ''No escaped character'')"
| "read_tokens st quoted tok [] = Inr (if tok \<noteq> [] \<or> quoted then [tok] else [])"
| "read_tokens InBlank quoted tok (c # cs) =
     (if c \<in> set shlex_whitespace then
        (if tok \<noteq> [] \<or> quoted then emit tok (read_tokens InBlank False [] cs)
         else read_tokens InBlank quoted tok cs)
      else if c = CHR 0x5C then read_tokens (InEscape InWord) quoted tok cs
      else if c \<in> set shlex_quotes then read_tokens (InQuote c) quoted tok cs
      else read_tokens InWord quoted [c] cs)"
| "read_tokens (InQuote q) quoted tok (c # cs) =
     (if c = q then read_tokens InWord True tok cs
      else if c = CHR 0x5C \<and> q = CHR 0x22 then read_tokens (InEscape (InQuote q)) True tok cs
      else read_tokens (InQuote q) True (tok @ [c]) cs)"
| "read_tokens (InEscape e) quoted tok (c # cs) =
     (case e of
        InQuote q \<Rightarrow>
          read_tokens e quoted
            ((if c \<noteq> CHR 0x5C \<and> c \<noteq> q then tok @ [CHR 0x5C] else tok) @ [c]) cs
      | _ \<Rightarrow> read_tokens e quoted (tok @ [c]) cs)"
| "read_tokens InWord quoted tok (c # cs) =
     (if c \<in> set shlex_whitespace then
        (if tok \<noteq> [] \<or> quoted then emit tok (read_tokens InBlank False [] cs)
         else read_tokens InBlank quoted tok cs)
      else if c \<in> set shlex_quotes then read_tokens (InQuote c) quoted tok cs
      else if c = CHR 0x5C then read_tokens (InEscape InWord) quoted tok cs
      else read_tokens InWord quoted (tok @ [c]) cs)"

definition shlex_split :: "string \<Rightarrow> error + string list" where
  "shlex_split s = read_tokens InBlank False [] s"

definition valid_ops :: "string list" where
  "valid_ops = [''='', ''!='', ''<'', ''>'', ''<='', ''>='']"

text \<open>\<open>tokens[i].upper() in ('AND', 'OR')\<close>.\<close>

definition is_logical :: "string \<Rightarrow> bool" where
  "is_logical t = (upper t = ''AND'' \<or> upper t = ''OR'')"

text \<open>
  The \<open>while\<close> loop of \<open>parse_where_clause\<close>, on the tokens from index \<open>i\<close> on:
  \<open>i + 2 >= len(tokens)\<close> says that fewer than three of them are left.
\<close>

fun parse_where_tokens :: "string list \<Rightarrow> error + cond_item list" where
  "parse_where_tokens [] = Inr []"
| "parse_where_tokens (t # ts) =
     (if is_logical t then
        (case parse_where_tokens ts of Inl e \<Rightarrow> Inl e | Inr cs \<Rightarrow> Inr (Op (upper t) # cs))
      else
        (case ts of
           o' # v # rest \<Rightarrow>
             if o' \<notin> set valid_ops then
               Inl (ParseError (''Invalid operator '' @ [CHR 0x27] @ o' @ [CHR 0x27] @ '' in WHERE.''))
             else
               (case parse_where_tokens rest of
                  Inl e \<Rightarrow> Inl e
                | Inr cs \<Rightarrow> Inr (Cond \<lparr>col = t, op = o', raw_val = v\<rparr> # cs))
         | _ \<Rightarrow> Inl (ParseError ''Malformed WHERE condition.'')))"

definition parse_where_clause :: "string \<Rightarrow> error + cond_item list" where
  "parse_where_clause where_part =
     (case shlex_split where_part of Inl e \<Rightarrow> Inl e | Inr tokens \<Rightarrow> parse_where_tokens tokens)"

text \<open>
  The pieces \<open>parse_query\<close> cuts its text into: the text without the final semicolon,
  the text between the keywords, the text after \<open>FROM\<close>, and the text after \<open>WHERE\<close>
  when there is one.
\<close>

definition original_text :: "string \<Rightarrow> string" where
  "original_text sql =
     (let original = strip sql in
      if endswith original '';'' then strip (py_slice_to original (- 1)) else original)"

definition select_part :: "string \<Rightarrow> string" where
  "select_part sql =
     (let original = original_text sql; low = lower original;
          sel_pos = py_find low ''select''; from_pos = py_find low '' from ''
      in strip (py_slice original (sel_pos + 6) from_pos))"

definition remaining_text :: "string \<Rightarrow> string" where
  "remaining_text sql =
     (let original = original_text sql; low = lower original;
          from_pos = py_find low '' from ''
      in strip (py_slice_from original (from_pos + 6)))"

definition where_part :: "string \<Rightarrow> string option" where
  "where_part sql =
     (let remaining = remaining_text sql;
          where_index = py_find (lower remaining) '' where ''
      in if where_index \<noteq> - 1 then Some (strip (py_slice_from remaining (where_index + 7)))
         else None)"

definition table_part :: "string \<Rightarrow> string" where
  "table_part sql =
     (let remaining = remaining_text sql;
          where_index = py_find (lower remaining) '' where ''
      in if where_index \<noteq> - 1 then strip (py_slice_to remaining where_index)
         else strip remaining)"

definition parse_query :: "string \<Rightarrow> error + parsed_query" where
  "parse_query sql =
     (let low = lower (original_text sql) in
      if \<not> contains low ''select'' \<or> \<not> contains low '' from '' then
        Inl (ParseError ''Query must contain SELECT and FROM clauses.'')
      else
        (case where_part sql of
           Some wp \<Rightarrow>
             (case parse_where_clause wp of
                Inl e \<Rightarrow> Inl e
              | Inr conditions \<Rightarrow>
                  Inr \<lparr>select_list = parse_select_list (select_part sql),
                       from_table = table_part sql,
                       where_clause = Some conditions, raw_sql = sql\<rparr>)
         | None \<Rightarrow>
             Inr \<lparr>select_list = parse_select_list (select_part sql),
                  from_table = table_part sql,
                  where_clause = None, raw_sql = sql\<rparr>))"

section \<open>WHERE evaluation\<close>

type_synonym row = "string \<rightharpoonup> string"

definition compare_values :: "float_lib \<Rightarrow> string \<Rightarrow> string \<Rightarrow> string \<Rightarrow> bool" where
  "compare_values L left_raw opr right_raw =
     (let left = try_parse_number L (Some left_raw);
          right = try_parse_number L (Some right_raw)
      in if is_number left \<and> is_number right then
           (if opr = ''='' then num_eq left right
            else if opr = ''!='' then \<not> num_eq left right
            else if opr = ''<'' then num_lt left right
            else if opr = ''>'' then num_lt right left
            else if opr = ''<='' then num_le left right
            else if opr = ''>='' then num_le right left
            else False)
         else
           (let left_s = lower (strip (py_str L left));
                right_s = lower (strip (py_str L right))
            in if opr = ''='' then left_s = right_s
               else if opr = ''!='' then left_s \<noteq> right_s
               else if opr = ''<'' then str_lt left_s right_s
               else if opr = ''>'' then str_lt right_s left_s
               else if opr = ''<='' then str_le left_s right_s
               else if opr = ''>='' then str_le right_s left_s
               else False))"

text \<open>
  The loop of \<open>evaluate_conditions\<close>.  \<open>result\<close> is \<open>None\<close> until the first condition
  has been compared; \<open>prev_op\<close> is unbound (\<open>None\<close>) until the first connective has
  been read, and reading it unbound raises \<open>UnboundLocalError\<close>.  A missing column
  raises \<open>KeyError\<close>.
\<close>

fun eval_loop ::
  "float_lib \<Rightarrow> row \<Rightarrow> cond_item list \<Rightarrow> bool option \<Rightarrow> string option \<Rightarrow> error + bool option" where
  "eval_loop L r [] result prev_op = Inr result"
| "eval_loop L r (Op s # rest) result prev_op = eval_loop L r rest result (Some s)"
| "eval_loop L r (Cond c # rest) result prev_op =
     (case r (normalize_colname (col c)) of
        None \<Rightarrow> Inl (KeyError (normalize_colname (col c)))
      | Some v \<Rightarrow>
          (let res = compare_values L v (op c) (unquote_value (raw_val c)) in
           case result of
             None \<Rightarrow> eval_loop L r rest (Some res) prev_op
           | Some b \<Rightarrow>
               (case prev_op of
                  None \<Rightarrow> Inl (UnboundLocalError ''prev_op'')
                | Some p \<Rightarrow>
                    if p = ''AND'' then eval_loop L r rest (Some (b \<and> res)) prev_op
                    else if p = ''OR'' then eval_loop L r rest (Some (b \<or> res)) prev_op
                    else eval_loop L r rest (Some b) prev_op)))"

text \<open>The value returned is \<open>True\<close>, \<open>False\<close> or Python's \<open>None\<close> (here \<open>None\<close>).\<close>

definition evaluate_conditions ::
  "float_lib \<Rightarrow> row \<Rightarrow> cond_item list option \<Rightarrow> error + bool option" where
  "evaluate_conditions L r conditions =
     (case conditions of
        None \<Rightarrow> Inr (Some True)
      | Some [] \<Rightarrow> Inr (Some True)
      | Some cs \<Rightarrow> eval_loop L r cs None None)"

section \<open>Execution\<close>

text \<open>
  The comprehension \<open>[r for r in rows if evaluate_conditions(r, parsed['where'])]\<close>:
  a row is kept when the value is \<open>True\<close>; \<open>False\<close> and \<open>None\<close> drop it; an error
  at any row ends the query.
\<close>

fun filter_rows :: "float_lib \<Rightarrow> row list \<Rightarrow> cond_item list option \<Rightarrow> error + row list" where
  "filter_rows L [] conditions = Inr []"
| "filter_rows L (r # rs) conditions =
     (case evaluate_conditions L r conditions of
        Inl e \<Rightarrow> Inl e
      | Inr v \<Rightarrow>
          (case filter_rows L rs conditions of
             Inl e \<Rightarrow> Inl e
           | Inr kept \<Rightarrow> Inr (if v = Some True then r # kept else kept)))"

text \<open>
  A result is a list of rows, or a list of aggregate entries \<open>{'expr': ..., 'count': ...}\<close>.
\<close>

datatype query_result = Rows "row list" | Counts "(string \<times> nat) list"

text \<open>The body of the loop over \<open>sel\<close> in the COUNT branch.\<close>

definition count_entry :: "row list \<Rightarrow> string \<Rightarrow> string \<times> nat" where
  "count_entry filtered s =
     (let inner = strip (py_slice s (py_find s ''('' + 1) (py_find s '')'')) in
      if inner = ''*'' then (''COUNT(*)'', length filtered)
      else
        (''COUNT('' @ inner @ '')'',
         length (filter (\<lambda>r. strip (case r (normalize_colname inner) of
                                      None \<Rightarrow> [] | Some v \<Rightarrow> v) \<noteq> []) filtered)))"

fun project_row :: "row \<Rightarrow> string list \<Rightarrow> row \<Rightarrow> error + row" where
  "project_row r [] row_out = Inr row_out"
| "project_row r (c # cs) row_out =
     (case r (normalize_colname c) of
        None \<Rightarrow> Inl (KeyError (''Column '' @ [CHR 0x27] @ c @ [CHR 0x27] @ '' not found.''))
      | Some v \<Rightarrow> project_row r cs (row_out(c \<mapsto> v)))"

fun project_rows :: "row list \<Rightarrow> string list \<Rightarrow> error + row list" where
  "project_rows [] sel = Inr []"
| "project_rows (r # rs) sel =
     (case project_row r sel Map.empty of
        Inl e \<Rightarrow> Inl e
      | Inr row_out \<Rightarrow>
          (case project_rows rs sel of
             Inl e \<Rightarrow> Inl e
           | Inr projected \<Rightarrow> Inr (row_out # projected)))"

definition has_count :: "string list \<Rightarrow> bool" where
  "has_count sel = list_ex (\<lambda>s. startswith (lower s) ''count('') sel"

text \<open>
  \<open>load\<close> stands for \<open>load_csv_table\<close>, which reads the file system: it gives the rows
  and the column names of a table, or \<open>FileNotFoundError\<close>.
\<close>

definition execute_query ::
  "float_lib \<Rightarrow> (string \<Rightarrow> error + row list \<times> string list) \<Rightarrow> parsed_query
     \<Rightarrow> error + query_result" where
  "execute_query L load parsed =
     (case load (from_table parsed) of
        Inl e \<Rightarrow> Inl e
      | Inr (rows, columns) \<Rightarrow>
          (case filter_rows L rows (where_clause parsed) of
             Inl e \<Rightarrow> Inl e
           | Inr filtered \<Rightarrow>
               (let sel = select_list parsed in
                if sel = [''*''] then Inr (Rows filtered)
                else if has_count sel then Inr (Counts (map (count_entry filtered) sel))
                else (case project_rows filtered sel of
                        Inl e \<Rightarrow> Inl e
                      | Inr projected \<Rightarrow> Inr (Rows projected)))))"

section \<open>Notions used to state the properties\<close>

text \<open>A table of two rows, and a provider that knows this table only.\<close>

definition sample_rows :: "row list" where
  "sample_rows =
     [[''id'' \<mapsto> ''1'', ''name'' \<mapsto> ''Bob''], [''id'' \<mapsto> ''2'', ''name'' \<mapsto> ''Amy'']]"

definition sample_load :: "string \<Rightarrow> error + row list \<times> string list" where
  "sample_load table_name =
     (if table_name = ''t'' then Inr (sample_rows, [''id'', ''name''])
      else Inl (FileNotFoundError
                  (''CSV file '' @ [CHR 0x27] @ table_name @ [CHR 0x27] @ '' not found.'')))"

fun is_connective :: "cond_item \<Rightarrow> bool" where
  "is_connective (Op s) = True"
| "is_connective (Cond c) = False"

text \<open>What one connective does to the running result and the next comparison.\<close>

definition connect :: "string \<Rightarrow> bool \<Rightarrow> bool \<Rightarrow> bool" where
  "connect s a b = (if s = ''AND'' then a \<and> b else if s = ''OR'' then a \<or> b else a)"

text \<open>The truth value of one condition on a row that has its column.\<close>

definition cond_holds :: "float_lib \<Rightarrow> row \<Rightarrow> condition \<Rightarrow> bool" where
  "cond_holds L r c =
     (case r (normalize_colname (col c)) of
        None \<Rightarrow> False
      | Some v \<Rightarrow> compare_values L v (op c) (unquote_value (raw_val c)))"

text \<open>The condition list \<open>s1, c1, s2, c2, ...\<close> of connectives and conditions in turn.\<close>

fun interleave :: "(string \<times> condition) list \<Rightarrow> cond_item list" where
  "interleave [] = []"
| "interleave ((s, c) # ps) = Op s # Cond c # interleave ps"





text \<open>
  A malformed token sequence, in the words of the specification: scanning from the
  left and skipping connective words, some condition group has fewer than three tokens
  left, or its middle token is not one of the six operators.
\<close>

fun where_malformed :: "string list \<Rightarrow> bool" where
  "where_malformed [] = False"
| "where_malformed (t # ts) =
     (if is_logical t then where_malformed ts
      else (case ts of
              o' # v # rest \<Rightarrow> o' \<notin> set valid_ops \<or> where_malformed rest
            | _ \<Rightarrow> True))"

section \<open>Properties of the condition evaluator and of filtering\<close>

lemma evaluate_absent:
  "evaluate_conditions L r None = Inr (Some True)"
  "evaluate_conditions L r (Some []) = Inr (Some True)"
  by (simp_all add: evaluate_conditions_def)

lemma filter_rows_all_true:
  "\<forall>r\<in>set rows. evaluate_conditions L r conds = Inr (Some True) \<Longrightarrow>
   filter_rows L rows conds = Inr rows"
  by (induction rows) simp_all

lemma filter_rows_none_true:
  "\<forall>r\<in>set rows. \<exists>v. evaluate_conditions L r conds = Inr v \<and> v \<noteq> Some True \<Longrightarrow>
   filter_rows L rows conds = Inr []"
  by (induction rows) auto

lemma filter_rows_kept_true:
  "filter_rows L rows conds = Inr kept \<Longrightarrow>
   \<forall>r\<in>set kept. evaluate_conditions L r conds = Inr (Some True)"
proof (induction rows arbitrary: kept)
  case Nil
  then show ?case by simp
next
  case (Cons r rs)
  then show ?case
    by (auto split: sum.splits if_splits)
qed

lemma filter_rows_idem:
  "filter_rows L rows conds = Inr kept \<Longrightarrow> filter_rows L kept conds = Inr kept"
  using filter_rows_all_true filter_rows_kept_true by blast

lemma eval_loop_connectives:
  "\<forall>x\<in>set ops. is_connective x \<Longrightarrow> eval_loop L r ops res prev = Inr res"
proof (induction ops arbitrary: prev)
  case Nil
  then show ?case by simp
next
  case (Cons x xs)
  then show ?case by (cases x) simp_all
qed

lemma eval_loop_interleave:
  "\<forall>(s, c)\<in>set ps. normalize_colname (col c) \<in> dom r \<Longrightarrow>
   eval_loop L r (interleave ps) (Some b) prev =
     Inr (Some (foldl (\<lambda>acc (s, c). connect s acc (cond_holds L r c)) b ps))"
proof (induction ps arbitrary: b prev)
  case Nil
  then show ?case by simp
next
  case (Cons p ps)
  obtain s c where p: "p = (s, c)" by (cases p)
  from Cons.prems p obtain v where v: "r (normalize_colname (col c)) = Some v" by auto
  from Cons.prems have rest: "\<forall>(s, c)\<in>set ps. normalize_colname (col c) \<in> dom r" by simp
  show ?case
    using Cons.IH [OF rest] v p
    by (simp add: connect_def cond_holds_def Let_def)
qed

text \<open>
  C8.  A query whose select list is \<open>['*']\<close> and whose condition list is absent
  (\<open>None\<close> or empty) returns every row of the table, unchanged and in the order of the
  source; the evaluator answers \<open>True\<close> for every row when the conditions are absent.
\<close>

theorem select_star_returns_all_rows:
  assumes "select_list q = [''*'']"
    and "where_clause q = None \<or> where_clause q = Some []"
    and "load (from_table q) = Inr (rows, columns)"
  shows "execute_query L load q = Inr (Rows rows)
         \<and> (\<forall>r. evaluate_conditions L r (where_clause q) = Inr (Some True))"
proof -
  have ev: "\<forall>r. evaluate_conditions L r (where_clause q) = Inr (Some True)"
    using assms(2) evaluate_absent by metis
  then have "filter_rows L rows (where_clause q) = Inr rows"
    by (simp add: filter_rows_all_true)
  then show ?thesis
    using assms(1,3) ev by (simp add: execute_query_def)
qed

theorem select_star_returns_all_rows_witness:
  "parse_query ''SELECT * FROM t'' =
     Inr \<lparr>select_list = [''*''], from_table = ''t'', where_clause = None,
          raw_sql = ''SELECT * FROM t''\<rparr>
   \<and> execute_query no_float sample_load
        \<lparr>select_list = [''*''], from_table = ''t'', where_clause = None,
         raw_sql = ''SELECT * FROM t''\<rparr>
       = Inr (Rows sample_rows)"
proof -
  let ?q = "\<lparr>select_list = [''*''], from_table = ''t'', where_clause = None,
            raw_sql = ''SELECT * FROM t''\<rparr>"
  have p: "parse_query ''SELECT * FROM t'' = Inr ?q" by code_simp
  have l: "sample_load (from_table ?q) = Inr (sample_rows, [''id'', ''name''])"
    by (simp add: sample_load_def)
  show ?thesis
    using p select_star_returns_all_rows [of ?q sample_load sample_rows "[''id'', ''name'']" no_float] l
    by simp
qed

text \<open>
  C9.  Filtering by one equality condition is idempotent: when the filter keeps the rows
  \<open>kept\<close> of a table, the same filter applied to \<open>kept\<close> keeps all of them.
\<close>

theorem equality_filter_idempotent:
  assumes "filter_rows L rows (Some [Cond \<lparr>col = c, op = ''='', raw_val = v\<rparr>]) = Inr kept"
  shows "filter_rows L kept (Some [Cond \<lparr>col = c, op = ''='', raw_val = v\<rparr>]) = Inr kept"
  using assms by (rule filter_rows_idem)

theorem equality_filter_idempotent_witness:
  "filter_rows no_float sample_rows (Some [Cond \<lparr>col = ''id'', op = ''='', raw_val = ''2''\<rparr>])
     = Inr [[''id'' \<mapsto> ''2'', ''name'' \<mapsto> ''Amy'']]
   \<and> filter_rows no_float [[''id'' \<mapsto> ''2'', ''name'' \<mapsto> ''Amy'']]
        (Some [Cond \<lparr>col = ''id'', op = ''='', raw_val = ''2''\<rparr>])
     = Inr [[''id'' \<mapsto> ''2'', ''name'' \<mapsto> ''Amy'']]"
proof -
  have h: "filter_rows no_float sample_rows
             (Some [Cond \<lparr>col = ''id'', op = ''='', raw_val = ''2''\<rparr>])
           = Inr [[''id'' \<mapsto> ''2'', ''name'' \<mapsto> ''Amy'']]"
    by (simp add: sample_rows_def evaluate_conditions_def normalize_colname_def strip_def
        is_space_def whitespace_chars_def lower_def lower_char_def compare_values_def
        try_parse_number_def py_int_def digits_value_def digit_val_def unquote_value_def
        num_eq_def no_float_def)
  show ?thesis using h equality_filter_idempotent [OF h] by simp
qed

text \<open>
  C10.  On a non-empty condition list that holds connectives only, the evaluator returns
  \<open>None\<close> for every row, the filter keeps no row, and the query ends without an error:
  with no row in the row modes, with a count per entry over no rows in the COUNT mode.
\<close>

theorem connectives_only_match_nothing:
  assumes "ops \<noteq> []" and "\<forall>x\<in>set ops. is_connective x"
  shows "evaluate_conditions L r (Some ops) = Inr None
         \<and> filter_rows L rows (Some ops) = Inr []
         \<and> (where_clause q = Some ops \<and> load (from_table q) = Inr (rows, columns) \<longrightarrow>
              execute_query L load q =
                Inr (if select_list q \<noteq> [''*''] \<and> has_count (select_list q)
                     then Counts (map (count_entry []) (select_list q)) else Rows []))"
proof -
  have ev: "evaluate_conditions L r' (Some ops) = Inr None" for r'
    using assms by (cases ops) (simp_all add: evaluate_conditions_def eval_loop_connectives)
  have fl: "filter_rows L rows (Some ops) = Inr []"
    by (rule filter_rows_none_true) (simp add: ev)
  show ?thesis
    using ev fl by (simp add: execute_query_def Let_def)
qed

theorem connectives_only_match_nothing_witness:
  "parse_query ''SELECT * FROM t WHERE AND'' =
     Inr \<lparr>select_list = [''*''], from_table = ''t'', where_clause = Some [Op ''AND''],
          raw_sql = ''SELECT * FROM t WHERE AND''\<rparr>
   \<and> evaluate_conditions no_float [''id'' \<mapsto> ''1'', ''name'' \<mapsto> ''Bob''] (Some [Op ''AND''])
       = Inr None
   \<and> execute_query no_float sample_load
        \<lparr>select_list = [''*''], from_table = ''t'', where_clause = Some [Op ''AND''],
         raw_sql = ''SELECT * FROM t WHERE AND''\<rparr> = Inr (Rows [])"
proof -
  let ?q = "\<lparr>select_list = [''*''], from_table = ''t'', where_clause = Some [Op ''AND''],
          raw_sql = ''SELECT * FROM t WHERE AND''\<rparr>"
  have p: "parse_query ''SELECT * FROM t WHERE AND'' = Inr ?q" by code_simp
  have a: "[Op ''AND''] \<noteq> []" "\<forall>x\<in>set [Op ''AND'']. is_connective x" by simp_all
  have l: "sample_load (from_table ?q) = Inr (sample_rows, [''id'', ''name''])"
    by (simp add: sample_load_def)
  show ?thesis
    using p l connectives_only_match_nothing [OF a, of no_float
        "[''id'' \<mapsto> ''1'', ''name'' \<mapsto> ''Bob'']" sample_rows ?q sample_load "[''id'', ''name'']"]
    by simp
qed

text \<open>
  C2.  The evaluator folds a condition list from the left: on \<open>c0, s1, c1, s2, c2, ...\<close>
  the result is \<open>(((c0 s1 c1) s2 c2) ...)\<close>, each connective applied in the order of the
  text, so that \<open>c1 OR c2 AND c3\<close> is \<open>(c1 OR c2) AND c3\<close>.
\<close>

theorem conditions_fold_left_to_right:
  assumes "normalize_colname (col c0) \<in> dom r"
    and "\<forall>(s, c)\<in>set ps. normalize_colname (col c) \<in> dom r"
  shows "evaluate_conditions L r (Some (Cond c0 # interleave ps)) =
           Inr (Some (foldl (\<lambda>acc (s, c). connect s acc (cond_holds L r c)) (cond_holds L r c0) ps))"
proof -
  from assms(1) obtain v where v: "r (normalize_colname (col c0)) = Some v" by auto
  show ?thesis
    using v eval_loop_interleave [OF assms(2)]
    by (simp add: evaluate_conditions_def cond_holds_def Let_def)
qed

theorem conditions_fold_left_to_right_witness:
  "parse_where_clause ''a = 1 OR a = 2 AND a = 3'' =
     Inr [Cond \<lparr>col = ''a'', op = ''='', raw_val = ''1''\<rparr>, Op ''OR'',
          Cond \<lparr>col = ''a'', op = ''='', raw_val = ''2''\<rparr>, Op ''AND'',
          Cond \<lparr>col = ''a'', op = ''='', raw_val = ''3''\<rparr>]
   \<and> evaluate_conditions no_float [''a'' \<mapsto> ''1'']
     (Some [Cond \<lparr>col = ''a'', op = ''='', raw_val = ''1''\<rparr>, Op ''OR'',
            Cond \<lparr>col = ''a'', op = ''='', raw_val = ''2''\<rparr>, Op ''AND'',
            Cond \<lparr>col = ''a'', op = ''='', raw_val = ''3''\<rparr>])
     = Inr (Some ((cond_holds no_float [''a'' \<mapsto> ''1''] \<lparr>col = ''a'', op = ''='', raw_val = ''1''\<rparr>
                   \<or> cond_holds no_float [''a'' \<mapsto> ''1''] \<lparr>col = ''a'', op = ''='', raw_val = ''2''\<rparr>)
                  \<and> cond_holds no_float [''a'' \<mapsto> ''1''] \<lparr>col = ''a'', op = ''='', raw_val = ''3''\<rparr>))
   \<and> ((cond_holds no_float [''a'' \<mapsto> ''1''] \<lparr>col = ''a'', op = ''='', raw_val = ''1''\<rparr>
         \<or> cond_holds no_float [''a'' \<mapsto> ''1''] \<lparr>col = ''a'', op = ''='', raw_val = ''2''\<rparr>)
        \<and> cond_holds no_float [''a'' \<mapsto> ''1''] \<lparr>col = ''a'', op = ''='', raw_val = ''3''\<rparr>) = False
   \<and> (cond_holds no_float [''a'' \<mapsto> ''1''] \<lparr>col = ''a'', op = ''='', raw_val = ''1''\<rparr>
         \<or> (cond_holds no_float [''a'' \<mapsto> ''1''] \<lparr>col = ''a'', op = ''='', raw_val = ''2''\<rparr>
        \<and> cond_holds no_float [''a'' \<mapsto> ''1''] \<lparr>col = ''a'', op = ''='', raw_val = ''3''\<rparr>)) = True"
proof -
  let ?r = "[''a'' \<mapsto> ''1'']"
  let ?c1 = "\<lparr>col = ''a'', op = ''='', raw_val = ''1''\<rparr>"
  let ?c2 = "\<lparr>col = ''a'', op = ''='', raw_val = ''2''\<rparr>"
  let ?c3 = "\<lparr>col = ''a'', op = ''='', raw_val = ''3''\<rparr>"
  have p: "parse_where_clause ''a = 1 OR a = 2 AND a = 3'' =
     Inr [Cond ?c1, Op ''OR'', Cond ?c2, Op ''AND'', Cond ?c3]" by code_simp
  have n: "normalize_colname ''a'' = ''a''" by code_simp
  have h: "cond_holds no_float ?r ?c1" "\<not> cond_holds no_float ?r ?c2" "\<not> cond_holds no_float ?r ?c3"
    by code_simp+
  have a: "normalize_colname (col ?c1) \<in> dom ?r" using n by simp
  have b: "\<forall>(s, c)\<in>set [(''OR'', ?c2), (''AND'', ?c3)]. normalize_colname (col c) \<in> dom ?r"
    using n by simp
  show ?thesis
    using conditions_fold_left_to_right [OF a b, of no_float] h p
    by (simp add: connect_def)
qed




section \<open>Properties of the parser\<close>

lemma pwt_logical:
  "is_logical t \<Longrightarrow> parse_where_tokens (t # ts) =
     (case parse_where_tokens ts of Inl e \<Rightarrow> Inl e | Inr cs \<Rightarrow> Inr (Op (upper t) # cs))"
  by simp

lemma pwt_short1: "\<not> is_logical t \<Longrightarrow> parse_where_tokens [t] = Inl (ParseError ''Malformed WHERE condition.'')"
  by simp

lemma pwt_short2: "\<not> is_logical t \<Longrightarrow> parse_where_tokens [t, u] = Inl (ParseError ''Malformed WHERE condition.'')"
  by simp

lemma pwt_badop:
  "\<not> is_logical t \<Longrightarrow> o' \<notin> set valid_ops \<Longrightarrow>
   parse_where_tokens (t # o' # v # rest) =
     Inl (ParseError (''Invalid operator '' @ [CHR 0x27] @ o' @ [CHR 0x27] @ '' in WHERE.''))"
  by simp

lemma pwt_cond:
  "\<not> is_logical t \<Longrightarrow> o' \<in> set valid_ops \<Longrightarrow>
   parse_where_tokens (t # o' # v # rest) =
     (case parse_where_tokens rest of
        Inl e \<Rightarrow> Inl e
      | Inr cs \<Rightarrow> Inr (Cond \<lparr>col = t, op = o', raw_val = v\<rparr> # cs))"
  by simp


lemma is_parse_error_case:
  "is_parse_error (case r of Inl e \<Rightarrow> Inl e | Inr cs \<Rightarrow> Inr (f cs)) = is_parse_error r"
proof (cases r)
  case (Inl e)
  then show ?thesis by (cases e) simp_all
next
  case (Inr cs)
  then show ?thesis by simp
qed

lemma parse_where_tokens_error:
  "is_parse_error (parse_where_tokens ts) = where_malformed ts"
proof (induction ts rule: parse_where_tokens.induct)
  case 1
  then show ?case by simp
next
  case (2 t ts)
  show ?case
  proof (cases "is_logical t")
    case True
    then show ?thesis
      using 2(1) by (simp only: pwt_logical is_parse_error_case where_malformed.simps if_True)
  next
    case nl: False
    show ?thesis
    proof (cases ts)
      case Nil
      then show ?thesis using nl by (simp add: pwt_short1 del: parse_where_tokens.simps)
    next
      case (Cons o' ts')
      note c1 = this
      show ?thesis
      proof (cases ts')
        case Nil
        then show ?thesis using nl c1 by (simp add: pwt_short2 del: parse_where_tokens.simps)
      next
        case (Cons v rest)
        show ?thesis
        proof (cases "o' \<in> set valid_ops")
          case True
          have "is_parse_error (parse_where_tokens rest) = where_malformed rest"
            using 2(2) [OF nl] c1 Cons True by simp
          then show ?thesis
            using nl c1 Cons True
            by (simp add: pwt_cond is_parse_error_case del: parse_where_tokens.simps)
        next
          case False
          then show ?thesis
            using nl c1 Cons by (simp add: pwt_badop del: parse_where_tokens.simps)
        qed
      qed
    qed
  qed
qed





lemma emit_not_parse_error: "is_parse_error (emit tok r) = is_parse_error r"
proof (cases r)
  case (Inl e)
  then show ?thesis by (cases e) (simp_all add: emit_def)
next
  case (Inr ts)
  then show ?thesis by (simp add: emit_def)
qed

lemma read_tokens_not_parse_error: "\<not> is_parse_error (read_tokens st quoted tok s)"
proof (induction st quoted tok s rule: read_tokens.induct)
  case (4 quoted tok c cs)
  then show ?case by (auto simp add: emit_not_parse_error)
next
  case (5 q quoted tok c cs)
  then show ?case by auto
next
  case (6 e quoted tok c cs)
  then show ?case by (cases e) auto
next
  case (7 quoted tok c cs)
  then show ?case by (auto simp add: emit_not_parse_error)
qed simp_all

lemma shlex_split_not_parse_error: "\<not> is_parse_error (shlex_split s)"
  by (simp add: shlex_split_def read_tokens_not_parse_error)

lemma parse_query_select:
  "parse_query sql = Inr q \<Longrightarrow> select_list q = parse_select_list (select_part sql)"
  by (auto simp add: parse_query_def Let_def split: if_splits option.splits sum.splits)

lemma strip_star: "strip ''*'' = ''*''"
  by (simp add: strip_def is_space_def whitespace_chars_def)

lemma parse_select_list_nonempty:
  "(parse_select_list t \<noteq> []) = (\<exists>p\<in>set (split_on CHR '','' (strip t)). strip p \<noteq> [])"
  by (auto simp add: parse_select_list_def Let_def strip_star filter_empty_conv)

lemma is_parse_error_Inl:
  "is_parse_error (Inl e :: error + 'a) = is_parse_error (Inl e :: error + 'b)"
  by (cases e) simp_all

lemma parse_where_clause_error:
  "is_parse_error (parse_where_clause wp) =
     (\<exists>ts. shlex_split wp = Inr ts \<and> where_malformed ts)"
proof (cases "shlex_split wp")
  case (Inl e)
  have "is_parse_error (Inl e :: error + cond_item list)
          = is_parse_error (Inl e :: error + string list)"
    by (rule is_parse_error_Inl)
  with Inl shlex_split_not_parse_error [of wp]
  have "\<not> is_parse_error (Inl e :: error + cond_item list)"
    by simp
  with Inl show ?thesis
    by (simp add: parse_where_clause_def)
next
  case (Inr ts)
  then show ?thesis
    by (simp add: parse_where_clause_def parse_where_tokens_error)
qed

lemma parse_query_error:
  "is_parse_error (parse_query sql) =
     (\<not> contains (lower (original_text sql)) ''select''
      \<or> \<not> contains (lower (original_text sql)) '' from ''
      \<or> (\<exists>wp. where_part sql = Some wp \<and> is_parse_error (parse_where_clause wp)))"
proof (cases "\<not> contains (lower (original_text sql)) ''select''
      \<or> \<not> contains (lower (original_text sql)) '' from ''")
  case True
  then have "parse_query sql = Inl (ParseError ''Query must contain SELECT and FROM clauses.'')"
    by (simp add: parse_query_def Let_def)
  then have "is_parse_error (parse_query sql)" by simp
  then show ?thesis using True by blast
next
  case False
  show ?thesis
  proof (cases "where_part sql")
    case None
    then show ?thesis using False by (simp add: parse_query_def Let_def)
  next
    case (Some wp)
    have "is_parse_error (parse_query sql) = is_parse_error (parse_where_clause wp)"
      using False Some by (simp add: parse_query_def Let_def is_parse_error_case)
    then show ?thesis using False Some by simp
  qed
qed

text \<open>
  C7.  \<open>parse_query\<close> raises \<open>ParseError\<close> exactly when the text lacks
  \<open>select\<close> or \<open> from \<close> (in any case of letters), or has a WHERE clause whose tokens
  are malformed.  A WHERE clause of two tokens raises it unless both tokens are
  connective words.
\<close>

theorem parse_error_exactly_when:
  "(is_parse_error (parse_query sql) \<longleftrightarrow>
      (\<not> contains (lower (original_text sql)) ''select''
       \<or> \<not> contains (lower (original_text sql)) '' from ''
       \<or> (\<exists>wp ts. where_part sql = Some wp \<and> shlex_split wp = Inr ts \<and> where_malformed ts)))
   \<and> (shlex_split wp = Inr [a, b] \<longrightarrow>
        (is_parse_error (parse_where_clause wp) \<longleftrightarrow> \<not> (is_logical a \<and> is_logical b)))"
proof -
  have two: "where_malformed [a, b] = (\<not> (is_logical a \<and> is_logical b))"
    by simp
  show ?thesis
    using two by (auto simp add: parse_query_error parse_where_clause_error)
qed

theorem parse_error_exactly_when_witness:
  "where_part ''SELECT * FROM t WHERE a ='' = Some ''a =''
   \<and> shlex_split ''a ='' = Inr [''a'', ''='']
   \<and> is_parse_error (parse_where_clause ''a ='')
   \<and> is_parse_error (parse_query ''SELECT * FROM t WHERE a ='')
   \<and> is_parse_error (parse_query ''SELECT * FRUM t'')"
proof -
  have w: "where_part ''SELECT * FROM t WHERE a ='' = Some ''a =''" by code_simp
  have s: "shlex_split ''a ='' = Inr [''a'', ''='']" by code_simp
  have m: "where_malformed [''a'', ''='']" by code_simp
  have l: "\<not> is_logical ''a''" by code_simp
  have f: "\<not> contains (lower (original_text ''SELECT * FRUM t'')) '' from ''" by code_simp
  show ?thesis
    using w s m l f
      parse_error_exactly_when [of "''SELECT * FROM t WHERE a =''" "''a =''" "''a''" "''=''"]
      parse_error_exactly_when [of "''SELECT * FRUM t''" "''a =''" "''a''" "''=''"]
    by blast
qed

theorem two_connectives_parse_counterexample:
  "where_part ''SELECT * FROM t WHERE AND OR'' = Some ''AND OR''
   \<and> shlex_split ''AND OR'' = Inr [''AND'', ''OR'']
   \<and> parse_query ''SELECT * FROM t WHERE AND OR'' =
       Inr \<lparr>select_list = [''*''], from_table = ''t'',
            where_clause = Some [Op ''AND'', Op ''OR''],
            raw_sql = ''SELECT * FROM t WHERE AND OR''\<rparr>
   \<and> \<not> is_parse_error (parse_query ''SELECT * FROM t WHERE AND OR'')"
  by code_simp




text \<open>
  C3.  For every query that \<open>parse_query\<close> accepts, the select list is
  \<open>['*']\<close> when the trimmed text between the keywords is exactly \<open>*\<close>; otherwise it is
  the list of the trimmed, non-blank pieces of that text between commas, in order.  It is
  non-empty exactly when some piece is non-blank.
\<close>

theorem select_list_shape:
  assumes "parse_query sql = Inr q"
  shows "(strip (select_part sql) = ''*'' \<longrightarrow> select_list q = [''*''])
         \<and> (strip (select_part sql) \<noteq> ''*'' \<longrightarrow>
              select_list q =
                filter (\<lambda>p. p \<noteq> []) (map strip (split_on CHR '','' (strip (select_part sql)))))
         \<and> (select_list q \<noteq> [] \<longleftrightarrow>
              (\<exists>p\<in>set (split_on CHR '','' (strip (select_part sql))). strip p \<noteq> []))"
  using parse_query_select [OF assms] parse_select_list_nonempty [of "select_part sql"]
  by (simp add: parse_select_list_def Let_def)

theorem select_list_shape_witness:
  "parse_query ''SELECT name, id FROM t'' =
     Inr \<lparr>select_list = [''name'', ''id''], from_table = ''t'', where_clause = None,
          raw_sql = ''SELECT name, id FROM t''\<rparr>
   \<and> strip (select_part ''SELECT name, id FROM t'') = ''name, id''
   \<and> filter (\<lambda>p. p \<noteq> []) (map strip (split_on CHR '','' ''name, id'')) = [''name'', ''id'']"
proof -
  have p: "parse_query ''SELECT name, id FROM t'' =
     Inr \<lparr>select_list = [''name'', ''id''], from_table = ''t'', where_clause = None,
          raw_sql = ''SELECT name, id FROM t''\<rparr>" by code_simp
  have s: "strip (select_part ''SELECT name, id FROM t'') = ''name, id''" by code_simp
  show ?thesis
    using p s select_list_shape [OF p] by simp
qed

theorem select_list_empty_or_mixed_counterexample:
  "parse_query ''SELECT FROM t'' =
     Inr \<lparr>select_list = [], from_table = ''t'', where_clause = None,
          raw_sql = ''SELECT FROM t''\<rparr>
   \<and> parse_query ''SELECT *, name FROM t'' =
     Inr \<lparr>select_list = [''*'', ''name''], from_table = ''t'', where_clause = None,
          raw_sql = ''SELECT *, name FROM t''\<rparr>"
  by code_simp

section \<open>Properties of the execution engine\<close>

lemma filter_rows_subset:
  "filter_rows L rows conds = Inr kept \<Longrightarrow> set kept \<subseteq> set rows"
proof (induction rows arbitrary: kept)
  case Nil
  then show ?case by simp
next
  case (Cons r rs)
  then show ?case
    by (auto split: sum.splits if_splits)
qed

lemma project_row_missing:
  "\<exists>c\<in>set sel. r (normalize_colname c) = None \<Longrightarrow> is_key_error (project_row r sel row_out)"
proof (induction sel arbitrary: row_out)
  case Nil
  then show ?case by simp
next
  case (Cons c cs)
  then show ?case
    by (cases "r (normalize_colname c)") auto
qed

lemma is_key_errorD:
  assumes "is_key_error r"
  shows "\<exists>m. r = Inl (KeyError m)"
proof (cases r)
  case (Inl e)
  with assms show ?thesis by (cases e) simp_all
next
  case (Inr x)
  with assms show ?thesis by simp
qed

lemma project_rows_missing:
  assumes "\<exists>c\<in>set sel. r (normalize_colname c) = None"
  shows "is_key_error (project_rows (r # rs) sel)"
proof -
  have "is_key_error (project_row r sel Map.empty)"
    using assms by (rule project_row_missing)
  then obtain m where "project_row r sel Map.empty = Inl (KeyError m)"
    using is_key_errorD by blast
  then show ?thesis by simp
qed

lemma execute_query_projection:
  assumes "select_list q \<noteq> [''*'']"
    and "\<not> has_count (select_list q)"
    and "load (from_table q) = Inr (rows, columns)"
    and "filter_rows L rows (where_clause q) = Inr kept"
  shows "execute_query L load q =
           (case project_rows kept (select_list q) of
              Inl e \<Rightarrow> Inl e | Inr projected \<Rightarrow> Inr (Rows projected))"
  using assms by (simp add: execute_query_def Let_def)

text \<open>
  C5.  In plain column-projection mode, when a requested column is absent
  from the table's column set and at least one row passes the filter, execution fails
  with \<open>KeyError\<close>; when no row passes the filter, it returns no rows and no error.
\<close>

theorem unknown_column_fails_when_rows_pass:
  assumes "select_list q \<noteq> [''*'']"
    and "\<not> has_count (select_list q)"
    and "load (from_table q) = Inr (rows, columns)"
    and "\<forall>r\<in>set rows. dom r = set columns"
    and "\<exists>c\<in>set (select_list q). normalize_colname c \<notin> set columns"
    and "filter_rows L rows (where_clause q) = Inr kept"
  shows "(kept \<noteq> [] \<longrightarrow> is_key_error (execute_query L load q))
         \<and> (kept = [] \<longrightarrow> execute_query L load q = Inr (Rows []))"
proof (intro conjI impI)
  have e: "execute_query L load q =
           (case project_rows kept (select_list q) of
              Inl e \<Rightarrow> Inl e | Inr projected \<Rightarrow> Inr (Rows projected))"
    using assms(1) assms(2) assms(3) assms(6) by (rule execute_query_projection)
  assume "kept \<noteq> []"
  then obtain r rs where k: "kept = r # rs" by (cases kept) simp_all
  have "set kept \<subseteq> set rows" using assms(6) by (rule filter_rows_subset)
  then have "r \<in> set rows" using k by simp
  then have d: "dom r = set columns" using assms(4) by simp
  from assms(5) obtain c where c: "c \<in> set (select_list q)"
    and nc: "normalize_colname c \<notin> set columns" by (rule bexE)
  from nc have "normalize_colname c \<notin> dom r" unfolding d .
  then have "r (normalize_colname c) = None" by (simp add: dom_def)
  then have "\<exists>c\<in>set (select_list q). r (normalize_colname c) = None"
    using c by (rule_tac x = c in bexI)
  then have "is_key_error (project_rows (r # rs) (select_list q))"
    by (rule project_rows_missing)
  then have "\<exists>m. project_rows (r # rs) (select_list q) = Inl (KeyError m)"
    by (rule is_key_errorD)
  then obtain m where "project_rows kept (select_list q) = Inl (KeyError m)"
    unfolding k by (rule exE)
  then show "is_key_error (execute_query L load q)"
    unfolding e by simp
next
  have e: "execute_query L load q =
           (case project_rows kept (select_list q) of
              Inl e \<Rightarrow> Inl e | Inr projected \<Rightarrow> Inr (Rows projected))"
    using assms(1) assms(2) assms(3) assms(6) by (rule execute_query_projection)
  assume "kept = []"
  then show "execute_query L load q = Inr (Rows [])"
    unfolding e by simp
qed

theorem unknown_column_fails_when_rows_pass_witness:
  "filter_rows no_float sample_rows None = Inr sample_rows
   \<and> sample_rows \<noteq> []
   \<and> is_key_error (execute_query no_float sample_load
        \<lparr>select_list = [''nosuch''], from_table = ''t'', where_clause = None,
         raw_sql = ''SELECT nosuch FROM t''\<rparr>)"
proof -
  let ?q = "\<lparr>select_list = [''nosuch''], from_table = ''t'', where_clause = None,
         raw_sql = ''SELECT nosuch FROM t''\<rparr>"
  have a1: "select_list ?q \<noteq> [''*'']" by simp
  have a2: "\<not> has_count (select_list ?q)"
    by (simp add: has_count_def lower_def lower_char_def)
  have a3: "sample_load (from_table ?q) = Inr (sample_rows, [''id'', ''name''])"
    by (simp add: sample_load_def)
  have a4: "\<forall>r\<in>set sample_rows. dom r = set [''id'', ''name'']"
    by (simp add: sample_rows_def insert_commute)
  have n: "normalize_colname ''nosuch'' = ''nosuch''" by code_simp
  have a5: "\<exists>c\<in>set (select_list ?q). normalize_colname c \<notin> set [''id'', ''name'']"
    using n by simp
  have f: "filter_rows no_float sample_rows None = Inr sample_rows"
    by (simp add: filter_rows_all_true evaluate_absent)
  then have a6: "filter_rows no_float sample_rows (where_clause ?q) = Inr sample_rows"
    by simp
  have ne: "sample_rows \<noteq> []" by (simp add: sample_rows_def)
  have t: "(sample_rows \<noteq> [] \<longrightarrow> is_key_error (execute_query no_float sample_load ?q))
           \<and> (sample_rows = [] \<longrightarrow> execute_query no_float sample_load ?q = Inr (Rows []))"
    using a1 a2 a3 a4 a5 a6 by (rule unknown_column_fails_when_rows_pass)
  show ?thesis
    using t ne f by simp
qed

theorem unknown_column_no_rows_counterexample:
  "\<not> has_count [''nosuch'']
   \<and> normalize_colname ''nosuch'' \<notin> set [''id'', ''name'']
   \<and> execute_query no_float sample_load
        \<lparr>select_list = [''nosuch''], from_table = ''t'',
         where_clause = Some [Cond \<lparr>col = ''id'', op = ''='', raw_val = ''3''\<rparr>],
         raw_sql = ''SELECT nosuch FROM t WHERE id = 3''\<rparr> = Inr (Rows [])"
proof -
  have a2: "\<not> has_count [''nosuch'']"
    by (simp add: has_count_def lower_def lower_char_def)
  have n: "normalize_colname ''nosuch'' = ''nosuch''" by code_simp
  have k: "filter_rows no_float sample_rows
             (Some [Cond \<lparr>col = ''id'', op = ''='', raw_val = ''3''\<rparr>]) = Inr []"
    by (simp add: sample_rows_def evaluate_conditions_def normalize_colname_def strip_def
        is_space_def whitespace_chars_def lower_def lower_char_def compare_values_def
        try_parse_number_def py_int_def digits_value_def digit_val_def unquote_value_def
        num_eq_def no_float_def)
  show ?thesis
    using a2 n k by (simp add: execute_query_def sample_load_def)
qed

text \<open>
  C1.  What the code does on a select list that mixes a COUNT expression with a plain
  column: the loop of the COUNT branch runs over every entry, so the column \<open>name\<close>
  yields the entry \<open>COUNT(nam)\<close> (its text without the last character) beside the
  entry of \<open>COUNT(*)\<close>.
\<close>

theorem count_mode_evaluates_plain_columns:
  "execute_query no_float sample_load
     \<lparr>select_list = [''COUNT(*)'', ''name''], from_table = ''t'', where_clause = None,
      raw_sql = ''SELECT COUNT(*), name FROM t''\<rparr>
   = Inr (Counts [(''COUNT(*)'', 2), (''COUNT(nam)'', 0)])"
proof -
  have h: "has_count [''COUNT(*)'', ''name'']" by code_simp
  have i1: "strip (py_slice ''COUNT(*)'' (py_find ''COUNT(*)'' ''('' + 1)
              (py_find ''COUNT(*)'' '')'')) = ''*''"
    by code_simp
  have i2: "strip (py_slice ''name'' (py_find ''name'' ''('' + 1) (py_find ''name'' '')''))
              = ''nam''"
    by code_simp
  have n: "normalize_colname ''nam'' = ''nam''" by code_simp
  have se: "strip [] = []" by (simp add: strip_def)
  have c1: "count_entry sample_rows ''COUNT(*)'' = (''COUNT(*)'', 2)"
    by (simp add: count_entry_def i1 sample_rows_def)
  have c2: "count_entry sample_rows ''name'' = (''COUNT(nam)'', 0)"
    by (simp add: count_entry_def i2 n sample_rows_def se)
  have f: "filter_rows no_float sample_rows None = Inr sample_rows"
    by (simp add: filter_rows_all_true evaluate_absent)
  show ?thesis
    using h c1 c2 f by (simp add: execute_query_def sample_load_def)
qed

text \<open>The query of this example, as the parser reads it.\<close>

lemma count_and_column_query_parses:
  "parse_query ''SELECT COUNT(*), name FROM t'' =
     Inr \<lparr>select_list = [''COUNT(*)'', ''name''], from_table = ''t'', where_clause = None,
          raw_sql = ''SELECT COUNT(*), name FROM t''\<rparr>"
  by code_simp

end
